theory Spec2Isabelle
  imports Main "HOL-Library.Word" "HOL-Library.Signed_Division"
begin

section \<open>Shape inference of the reshape operator\<close>

text \<open>
  A shallow embedding of \<^verbatim>\<open>paddle/fluid/operators/reshape_op.cc\<close>:
  \<^verbatim>\<open>ReshapeOp::ValidateShape\<close>, \<^verbatim>\<open>ReshapeOp::InferShape\<close> and
  \<^verbatim>\<open>ReshapeGradOp::InferShape\<close>.

  \<^item> \<^verbatim>\<open>int\<close> is a 32-bit word, \<^verbatim>\<open>int64_t\<close> a 64-bit word; both are read as two's
    complement and their arithmetic wraps around.
  \<^item> \<^verbatim>\<open>size_t\<close> indices and the rank are natural numbers.
  \<^item> A failed \<^verbatim>\<open>PADDLE_ENFORCE\<close> throws; it is the \<open>Inl\<close> branch of the result. The
    source has one exception type and tells the checks apart by their message, the
    model has one constructor for each check.
\<close>

subsection \<open>Data\<close>

type_synonym int32 = "32 word"
type_synonym int64 = "64 word"

text \<open>\<^verbatim>\<open>framework::DDim\<close>: the extents of a tensor, each an \<^verbatim>\<open>int64_t\<close>.\<close>

type_synonym DDim = "int64 list"

text \<open>The level-of-detail descriptor of a tensor; opaque for the operator.\<close>

type_synonym LoD = "nat list list"

datatype error =
    InputNullError              \<comment> \<open>Input(X) of ReshapeOp should not be null.\<close>
  | OutputNullError             \<comment> \<open>Output(Out) of ReshapeOp should not be null.\<close>
  | EmptySpecError              \<comment> \<open>The shape information must be set by Attr(shape).\<close>
  | InvalidDimensionError       \<comment> \<open>Each input dimension of Attr(shape) must be positive, or only one input dimension can be -1.\<close>
  | IndexOutOfRangeError        \<comment> \<open>Only dimension less than rank of Input(X) can be set to 0.\<close>
  | MultipleInferredDimsError   \<comment> \<open>Only one input dimension of Attr(shape) can be unknown.\<close>
  | ShapeMismatchError          \<comment> \<open>Invalid shape is given.\<close>
  | OutGradNullError            \<comment> \<open>Input(Out@GRAD) shouldn't be null.\<close>
  | ArithmeticFault             \<comment> \<open>the machine's trap of an integer division, not an exception\<close>

record VarDesc =
  dims :: DDim
  lod :: LoD

record InferShapeContext =
  inputs :: "string \<rightharpoonup> VarDesc"
  outputs :: "string \<rightharpoonup> VarDesc"
  attr_shape :: "int32 list"

subsection \<open>The framework's helpers\<close>

text \<open>
  Modelled from the spec: \<^verbatim>\<open>framework::product\<close> is defined in the framework,
  outside the operator's file. The total element count of a shape is the product of all
  its extents; the result type is \<^verbatim>\<open>int64_t\<close>.
\<close>

definition product :: "DDim \<Rightarrow> int64" where
  "product d = fold (\<lambda>x acc. acc * x) d 1"

text \<open>
  Modelled from the spec: the accessors of \<^verbatim>\<open>framework::InferShapeContext\<close> are
  defined in the framework, outside the operator's file. A context holds named inputs
  and outputs; \<^verbatim>\<open>HasInput\<close> and \<^verbatim>\<open>HasOutput\<close> tell whether a name is there.
\<close>

definition HasInput :: "InferShapeContext \<Rightarrow> string \<Rightarrow> bool" where
  "HasInput ctx name = (inputs ctx name \<noteq> None)"

definition HasOutput :: "InferShapeContext \<Rightarrow> string \<Rightarrow> bool" where
  "HasOutput ctx name = (outputs ctx name \<noteq> None)"

text \<open>
  Modelled from the spec: \<^verbatim>\<open>GetInputDim\<close> reads the shape of a named input. It is called
  only after \<^verbatim>\<open>HasInput\<close> was enforced.
\<close>

definition GetInputDim :: "InferShapeContext \<Rightarrow> string \<Rightarrow> DDim" where
  "GetInputDim ctx name = (case inputs ctx name of None \<Rightarrow> [] | Some v \<Rightarrow> dims v)"

text \<open>The descriptor of a named input, as \<^verbatim>\<open>ShareLoD\<close> reads it.\<close>

definition GetInputLoD :: "InferShapeContext \<Rightarrow> string \<Rightarrow> LoD" where
  "GetInputLoD ctx name = (case inputs ctx name of None \<Rightarrow> [] | Some v \<Rightarrow> lod v)"

text \<open>
  Modelled from the spec: \<^verbatim>\<open>SetOutputDim\<close> writes the shape of a named output and leaves
  everything else of the context as it is.
\<close>

definition SetOutputDim :: "InferShapeContext \<Rightarrow> string \<Rightarrow> DDim \<Rightarrow> InferShapeContext" where
  "SetOutputDim ctx name d =
     ctx\<lparr>outputs := (outputs ctx)(name \<mapsto>
       (case outputs ctx name of
          None \<Rightarrow> \<lparr>dims = d, lod = []\<rparr>
        | Some v \<Rightarrow> v\<lparr>dims := d\<rparr>))\<rparr>"

text \<open>
  Modelled from the spec: \<^verbatim>\<open>ShareLoD\<close> copies the descriptor of a named input onto a
  named output as it is, without looking into it.
\<close>

definition ShareLoD :: "InferShapeContext \<Rightarrow> string \<Rightarrow> string \<Rightarrow> InferShapeContext" where
  "ShareLoD ctx i out =
     ctx\<lparr>outputs := (outputs ctx)(out \<mapsto>
       (case outputs ctx out of
          None \<Rightarrow> \<lparr>dims = [], lod = GetInputLoD ctx i\<rparr>
        | Some v \<Rightarrow> v\<lparr>lod := GetInputLoD ctx i\<rparr>))\<rparr>"

text \<open>
  Modelled from the spec: \<^verbatim>\<open>framework::GradVarName\<close> names the gradient of a variable, and
  \<^verbatim>\<open>framework::make_ddim\<close> makes a shape of a vector of extents.
\<close>

definition GradVarName :: "string \<Rightarrow> string" where
  "GradVarName name = name @ ''@GRAD''"

definition make_ddim :: "int64 list \<Rightarrow> DDim" where
  "make_ddim v = v"

subsection \<open>\<^verbatim>\<open>ReshapeOp::ValidateShape\<close>\<close>

text \<open>
  The loop of lines 70 to 82, at index \<open>i\<close> with the entries from \<open>i\<close> on still to visit.
  It carries \<^verbatim>\<open>neg_dims_idx\<close> and \<^verbatim>\<open>need_dim_copy\<close>, and stops at the first entry
  that fails a check.
\<close>

fun validate_loop ::
  "nat \<Rightarrow> nat \<Rightarrow> int32 list \<Rightarrow> nat list \<Rightarrow> bool \<Rightarrow> error + (nat list \<times> bool)" where
  "validate_loop x_rank i [] neg_dims_idx need_dim_copy = Inr (neg_dims_idx, need_dim_copy)"
| "validate_loop x_rank i (s # ss) neg_dims_idx need_dim_copy =
     (if \<not> (0 \<le>s s \<or> s = - 1) then Inl InvalidDimensionError
      else if s = - 1 then validate_loop x_rank (Suc i) ss (neg_dims_idx @ [i]) need_dim_copy
      else if s = 0 then
        (if i < x_rank then validate_loop x_rank (Suc i) ss neg_dims_idx True
         else Inl IndexOutOfRangeError)
      else validate_loop x_rank (Suc i) ss neg_dims_idx need_dim_copy)"

text \<open>
  \<^verbatim>\<open>std::accumulate(shape.begin(), shape.end(), 1, std::multiplies<int>())\<close>: the initial
  value and the multiplication are \<^verbatim>\<open>int\<close>, so the product is taken in 32 bits.
\<close>

definition accumulate :: "int32 list \<Rightarrow> int32" where
  "accumulate shape = fold (\<lambda>a acc. acc * a) shape 1"

text \<open>
  The division of \<^verbatim>\<open>int64_t\<close> values truncates towards zero. A zero divisor, and the one
  quotient that does not fit, are undefined in the language and trap on the machine.
\<close>

definition div_int64 :: "int64 \<Rightarrow> int64 \<Rightarrow> error + int64" where
  "div_int64 a b =
     (if b = 0 \<or> (a = - (2 ^ 63) \<and> b = - 1) then Inl ArithmeticFault
      else Inr (word_of_int (sint a sdiv sint b)))"

definition ValidateShape :: "int32 list \<Rightarrow> DDim \<Rightarrow> error + (int64 list \<times> bool)" where
  "ValidateShape shape input_dim =
     (let in_size = product input_dim;
          x_rank = length input_dim
      in case validate_loop x_rank 0 shape [] False of
           Inl e \<Rightarrow> Inl e
         | Inr (neg_dims_idx, need_dim_copy) \<Rightarrow>
             if \<not> length neg_dims_idx \<le> 1 then Inl MultipleInferredDimsError
             else
               let output_shape = map scast shape in
               if need_dim_copy then Inr (output_shape, need_dim_copy)
               else if neg_dims_idx \<noteq> [] then
                 let capacity = (scast (accumulate shape) :: int64) in
                 (case div_int64 in_size (- capacity) of
                    Inl e \<Rightarrow> Inl e
                  | Inr inferred_dim \<Rightarrow>
                      if inferred_dim * (- capacity) \<noteq> in_size then Inl ShapeMismatchError
                      else Inr (output_shape[hd neg_dims_idx := inferred_dim], False))
               else Inr (output_shape, False))"

text \<open>
  The divisor of line 98, \<^verbatim>\<open>-capacity\<close>: the 32-bit product, widened to \<^verbatim>\<open>int64_t\<close>
  with its sign and negated.
\<close>

definition divisor :: "int32 list \<Rightarrow> int64" where
  "divisor shape = - (scast (accumulate shape))"

text \<open>
  The condition under which a call gets as far as the division of line 98: the loop and
  the check of line 83 pass, no dimension is to be copied, and an index was recorded.
\<close>

definition reaches_division :: "int32 list \<Rightarrow> DDim \<Rightarrow> bool" where
  "reaches_division shape input_dim =
     (case validate_loop (length input_dim) 0 shape [] False of
        Inl e \<Rightarrow> False
      | Inr (neg_dims_idx, need_dim_copy) \<Rightarrow>
          length neg_dims_idx \<le> 1 \<and> \<not> need_dim_copy \<and> neg_dims_idx \<noteq> [])"

subsection \<open>\<^verbatim>\<open>ReshapeOp::InferShape\<close> and \<^verbatim>\<open>ReshapeGradOp::InferShape\<close>\<close>

definition InferShape :: "InferShapeContext \<Rightarrow> error + InferShapeContext" where
  "InferShape ctx =
     (if \<not> HasInput ctx ''X'' then Inl InputNullError
      else if \<not> HasOutput ctx ''Out'' then Inl OutputNullError
      else
        let shape = attr_shape ctx in
        if shape = [] then Inl EmptySpecError
        else
          let x_dims = GetInputDim ctx ''X'' in
          case ValidateShape shape x_dims of
            Inl e \<Rightarrow> Inl e
          | Inr (output_shape, need_copy_dim) \<Rightarrow>
              Inr (ShareLoD
                     (if need_copy_dim then SetOutputDim ctx ''Out'' x_dims
                      else SetOutputDim ctx ''Out'' (make_ddim output_shape))
                     ''X'' ''Out''))"

definition GradInferShape :: "InferShapeContext \<Rightarrow> error + InferShapeContext" where
  "GradInferShape ctx =
     (if \<not> HasInput ctx ''X'' then Inl InputNullError
      else if \<not> HasInput ctx (GradVarName ''Out'') then Inl OutGradNullError
      else Inr (SetOutputDim ctx (GradVarName ''X'') (GetInputDim ctx ''X'')))"

subsection \<open>Notions used in the statements\<close>

text \<open>
  An entry passes the two checks of the loop body at index \<open>i\<close>: it is not a negative
  number other than \<open>-1\<close>, and if it is \<open>0\<close> then \<open>i\<close> is below the rank.
\<close>

definition entry_ok :: "nat \<Rightarrow> nat \<Rightarrow> int32 \<Rightarrow> bool" where
  "entry_ok x_rank i s = ((0 \<le>s s \<or> s = - 1) \<and> (s = 0 \<longrightarrow> i < x_rank))"

text \<open>The indices of the entries \<open>-1\<close>, counted from \<open>i\<close>, in increasing order.\<close>

fun unknown_positions :: "nat \<Rightarrow> int32 list \<Rightarrow> nat list" where
  "unknown_positions i [] = []"
| "unknown_positions i (s # ss) =
     (if s = - 1 then i # unknown_positions (Suc i) ss else unknown_positions (Suc i) ss)"

text \<open>
  The capacity in the words of the specification: the product of the positive entries,
  as an unbounded integer; an entry \<open>-1\<close> counts as the factor 1.
\<close>

definition capacity_spec :: "int32 list \<Rightarrow> int" where
  "capacity_spec shape = prod_list (map sint (filter (\<lambda>s. 0 <s s) shape))"

text \<open>What a context holds for a named output or input, if it is there.\<close>

definition output_dims :: "InferShapeContext \<Rightarrow> string \<Rightarrow> DDim option" where
  "output_dims ctx name = (case outputs ctx name of None \<Rightarrow> None | Some v \<Rightarrow> Some (dims v))"

definition output_lod :: "InferShapeContext \<Rightarrow> string \<Rightarrow> LoD option" where
  "output_lod ctx name = (case outputs ctx name of None \<Rightarrow> None | Some v \<Rightarrow> Some (lod v))"

definition input_lod :: "InferShapeContext \<Rightarrow> string \<Rightarrow> LoD option" where
  "input_lod ctx name = (case inputs ctx name of None \<Rightarrow> None | Some v \<Rightarrow> Some (lod v))"

subsection \<open>Contexts of the documented examples\<close>

text \<open>
  An input of shape \<open>[2, 4, 6]\<close> with the target shapes \<open>[2, 3, -1, 2]\<close> and
  \<open>[-1, 0, 3, 2]\<close> of the operator's documentation, and contexts of the gradient
  operator for the first of them: complete, without \<^verbatim>\<open>Out@GRAD\<close>, and without \<^verbatim>\<open>X\<close>.
\<close>

definition example_static :: InferShapeContext where
  "example_static =
     \<lparr>inputs = [''X'' \<mapsto> \<lparr>dims = [2, 4, 6], lod = [[0, 1, 2]]\<rparr>],
      outputs = [''Out'' \<mapsto> \<lparr>dims = [], lod = []\<rparr>],
      attr_shape = [2, 3, - 1, 2]\<rparr>"

definition example_deferred :: InferShapeContext where
  "example_deferred =
     \<lparr>inputs = [''X'' \<mapsto> \<lparr>dims = [2, 4, 6], lod = [[0, 1, 2]]\<rparr>],
      outputs = [''Out'' \<mapsto> \<lparr>dims = [], lod = []\<rparr>],
      attr_shape = [- 1, 0, 3, 2]\<rparr>"

definition example_grad :: InferShapeContext where
  "example_grad =
     \<lparr>inputs = [''X'' \<mapsto> \<lparr>dims = [2, 4, 6], lod = [[0, 1, 2]]\<rparr>,
                ''Out@GRAD'' \<mapsto> \<lparr>dims = [2, 3, 4, 2], lod = []\<rparr>],
      outputs = [''X@GRAD'' \<mapsto> \<lparr>dims = [], lod = []\<rparr>],
      attr_shape = [2, 3, - 1, 2]\<rparr>"

definition example_grad_no_out_grad :: InferShapeContext where
  "example_grad_no_out_grad =
     \<lparr>inputs = [''X'' \<mapsto> \<lparr>dims = [2, 4, 6], lod = [[0, 1, 2]]\<rparr>],
      outputs = [''X@GRAD'' \<mapsto> \<lparr>dims = [], lod = []\<rparr>],
      attr_shape = [2, 3, - 1, 2]\<rparr>"

definition example_grad_no_x :: InferShapeContext where
  "example_grad_no_x =
     \<lparr>inputs = [''Out@GRAD'' \<mapsto> \<lparr>dims = [2, 3, 4, 2], lod = []\<rparr>],
      outputs = [''X@GRAD'' \<mapsto> \<lparr>dims = [], lod = []\<rparr>],
      attr_shape = [2, 3, - 1, 2]\<rparr>"

section \<open>The loop\<close>

lemma validate_loop_append:
  "(\<forall>j < length pre. entry_ok r (i + j) (pre ! j)) \<Longrightarrow>
   validate_loop r i (pre @ ss) neg need =
   validate_loop r (i + length pre) ss (neg @ unknown_positions i pre) (need \<or> 0 \<in> set pre)"
proof (induction pre arbitrary: i neg need)
  case Nil
  then show ?case by simp
next
  case (Cons s pre)
  from Cons.prems have hd_ok: "entry_ok r i s"
    by (metis add.right_neutral length_greater_0_conv list.distinct(1) nth_Cons_0)
  from Cons.prems have tl_ok: "\<forall>j < length pre. entry_ok r (Suc i + j) (pre ! j)"
    by fastforce
  note IH = Cons.IH [OF tl_ok]
  show ?case
    using hd_ok by (auto simp: entry_ok_def IH)
qed

lemma validate_loop_all_ok:
  "(\<forall>j < length ss. entry_ok r (i + j) (ss ! j)) \<Longrightarrow>
   validate_loop r i ss neg need = Inr (neg @ unknown_positions i ss, need \<or> 0 \<in> set ss)"
  using validate_loop_append [of ss r i "[]" neg need] by simp

lemma validate_loop_Inr_ok:
  "validate_loop r i ss neg need = Inr res \<Longrightarrow> j < length ss \<Longrightarrow> entry_ok r (i + j) (ss ! j)"
proof (induction ss arbitrary: i neg need j)
  case Nil
  then show ?case by simp
next
  case (Cons s ss)
  show ?case
  proof (cases j)
    case 0
    with Cons.prems show ?thesis
      by (auto simp: entry_ok_def split: if_splits)
  next
    case (Suc k)
    with Cons.prems have "k < length ss" by simp
    moreover from Cons.prems obtain neg' need' where
      "validate_loop r (Suc i) ss neg' need' = Inr res"
      by (auto split: if_splits)
    ultimately have "entry_ok r (Suc i + k) (ss ! k)"
      using Cons.IH by blast
    with Suc show ?thesis by simp
  qed
qed

lemma length_unknown_positions:
  "length (unknown_positions i ss) = count_list ss (- 1)"
  by (induction ss arbitrary: i) auto

lemma unknown_positions_none:
  "- 1 \<notin> set ss \<Longrightarrow> unknown_positions i ss = []"
  by (induction ss arbitrary: i) auto

lemma unknown_positions_append:
  "unknown_positions i (a @ b) = unknown_positions i a @ unknown_positions (i + length a) b"
  by (induction a arbitrary: i) auto

lemma unknown_positions_single:
  assumes "p < length ss" "ss ! p = - 1" "\<forall>j < length ss. j \<noteq> p \<longrightarrow> ss ! j \<noteq> - 1"
  shows "unknown_positions 0 ss = [p]"
proof -
  have ss: "ss = take p ss @ ss ! p # drop (Suc p) ss"
    using assms(1) by (rule id_take_nth_drop)
  have a: "- 1 \<notin> set (take p ss)"
    using assms by (auto simp: in_set_conv_nth)
  have b: "- 1 \<notin> set (drop (Suc p) ss)"
    using assms by (auto simp: in_set_conv_nth)
  have "unknown_positions 0 (take p ss @ ss ! p # drop (Suc p) ss) = [p]"
    using assms(1,2) a b
    by (simp add: unknown_positions_append unknown_positions_none)
  with ss show ?thesis by simp
qed

text \<open>The first entry that fails a check decides which error is raised.\<close>

lemma validate_loop_first_bad:
  assumes "k < length ss" "\<not> entry_ok r k (ss ! k)" "\<forall>j < k. entry_ok r j (ss ! j)"
  shows "validate_loop r 0 ss [] False =
         Inl (if 0 \<le>s ss ! k \<or> ss ! k = - 1 then IndexOutOfRangeError else InvalidDimensionError)"
proof -
  have ss: "ss = take k ss @ ss ! k # drop (Suc k) ss"
    using assms(1) by (rule id_take_nth_drop)
  have pre: "\<forall>j < length (take k ss). entry_ok r (0 + j) (take k ss ! j)"
    using assms(1,3) by simp
  have "validate_loop r 0 (take k ss @ ss ! k # drop (Suc k) ss) [] False =
        Inl (if 0 \<le>s ss ! k \<or> ss ! k = - 1 then IndexOutOfRangeError else InvalidDimensionError)"
    unfolding validate_loop_append [OF pre]
    using assms(1,2) by (auto simp: entry_ok_def)
  with ss show ?thesis by simp
qed

lemma ValidateShape_first_bad:
  assumes "k < length shape" "\<not> entry_ok (length input_dim) k (shape ! k)"
    "\<forall>j < k. entry_ok (length input_dim) j (shape ! j)"
  shows "ValidateShape shape input_dim =
         Inl (if 0 \<le>s shape ! k \<or> shape ! k = - 1 then IndexOutOfRangeError else InvalidDimensionError)"
  unfolding ValidateShape_def Let_def validate_loop_first_bad [OF assms]
  by simp

lemma ValidateShape_loop_ok:
  assumes "\<forall>j < length shape. entry_ok (length input_dim) j (shape ! j)"
  shows "validate_loop (length input_dim) 0 shape [] False =
         Inr (unknown_positions 0 shape, 0 \<in> set shape)"
  using validate_loop_all_ok [of shape "length input_dim" 0 "[]" False] assms by simp

section \<open>A fully explicit target shape\<close>

text \<open>
  A target shape whose entries are all positive is returned as it is (each entry widened
  to 64 bits) and not deferred, whatever the input shape is: the element counts are
  compared only in the branch that infers a dimension.
\<close>

lemma explicit_shape_verbatim:
  assumes "\<forall>s \<in> set shape. 0 <s s"
  shows "ValidateShape shape input_dim = Inr (map scast shape, False)"
proof -
  have nz: "0 \<notin> set shape" using assms by auto
  have nu: "- 1 \<notin> set shape" using assms by (auto simp: word_sless_alt)
  have ok: "\<forall>j < length shape. entry_ok (length input_dim) j (shape ! j)"
    using assms nz by (auto simp: entry_ok_def word_sle_eq word_sless_alt dest!: nth_mem)
  show ?thesis
    unfolding ValidateShape_def Let_def ValidateShape_loop_ok [OF ok]
    using nz nu by (simp add: unknown_positions_none)
qed

lemma explicit_shape_matching:
  "ValidateShape [6, 8] [2, 4, 6] = Inr ([6, 8], False)"
proof -
  have h: "\<forall>s \<in> set [6, 8 :: int32]. 0 <s s" by (simp add: word_sless_alt)
  show ?thesis using explicit_shape_verbatim [OF h, of "[2, 4, 6]"] by simp
qed

text \<open>
  Claim C1 says that a target shape without \<open>0\<close> and \<open>-1\<close> is returned only if its
  product equals the element count of the input, and fails with \<open>ShapeMismatchError\<close>
  otherwise. The branch that infers a dimension enforces the element count; the branch
  for a fully explicit shape has no such check. The target shape \<open>[5]\<close> for an input of
  shape \<open>[2, 4, 6]\<close>, that is 5 elements for 48, is returned as a static result.
\<close>

theorem explicit_shape_unchecked:
  "ValidateShape [5] [2, 4, 6] = Inr ([5], False) \<and>
   sint (product [5]) = 5 \<and> sint (product [2, 4, 6]) = 48"
proof -
  have h: "\<forall>s \<in> set [5 :: int32]. 0 <s s" by (simp add: word_sless_alt)
  have "ValidateShape [5] [2, 4, 6] = Inr ([5], False)"
    using explicit_shape_verbatim [OF h, of "[2, 4, 6]"] by simp
  then show ?thesis by (simp add: product_def)
qed

section \<open>A target shape with a dimension to copy\<close>

text \<open>
  Claim C3: if the target shape has a \<open>0\<close>, every \<open>0\<close> is at a position below the rank
  of the input, no entry is negative other than \<open>-1\<close>, and at most one entry is \<open>-1\<close>,
  then no error is raised, the output is the target shape with its \<open>0\<close> and \<open>-1\<close>
  entries left as they are, and the result is flagged as deferred. The element count of
  the input plays no role.
\<close>

theorem zero_defers:
  assumes "0 \<in> set shape"
    and "\<forall>j < length shape. shape ! j = 0 \<longrightarrow> j < length input_dim"
    and "\<forall>s \<in> set shape. 0 \<le>s s \<or> s = - 1"
    and "count_list shape (- 1) \<le> 1"
  shows "ValidateShape shape input_dim = Inr (map scast shape, True) \<and>
         (\<forall>j < length shape.
            (shape ! j = 0 \<longrightarrow> (map scast shape :: int64 list) ! j = 0) \<and>
            (shape ! j = - 1 \<longrightarrow> (map scast shape :: int64 list) ! j = - 1))"
proof -
  have ok: "\<forall>j < length shape. entry_ok (length input_dim) j (shape ! j)"
    using assms(2,3) by (auto simp: entry_ok_def)
  have "ValidateShape shape input_dim = Inr (map scast shape, True)"
    unfolding ValidateShape_def Let_def ValidateShape_loop_ok [OF ok]
    using assms(1,4) by (simp add: length_unknown_positions)
  then show ?thesis by simp
qed

theorem zero_defers_witness:
  "ValidateShape [- 1, 0, 3, 2] [2, 4, 6] = Inr ([- 1, 0, 3, 2], True)"
proof -
  have h1: "0 \<in> set [- 1, 0, 3, 2 :: int32]" by simp
  have h2: "\<forall>j < length [- 1, 0, 3, 2 :: int32].
              [- 1, 0, 3, 2 :: int32] ! j = 0 \<longrightarrow> j < length [2, 4, 6 :: int64]"
    by (simp add: nth_Cons')
  have h3: "\<forall>s \<in> set [- 1, 0, 3, 2 :: int32]. 0 \<le>s s \<or> s = - 1"
    by (simp add: word_sle_eq)
  have h4: "count_list [- 1, 0, 3, 2 :: int32] (- 1) \<le> 1" by simp
  show ?thesis using zero_defers [OF h1 h2 h3 h4] by simp
qed

section \<open>More than one dimension to infer\<close>

text \<open>
  Claim C4 says that two or more entries \<open>-1\<close> fail with \<open>MultipleInferredDimsError\<close>
  whatever the other entries are. The entries are counted after the loop, so an entry
  that fails a check of the loop is reported first. What holds: if every entry passes
  the checks of the loop (none is negative other than \<open>-1\<close>, every \<open>0\<close> is at a position
  below the rank of the input) and two or more entries are \<open>-1\<close>, the call fails with
  \<open>MultipleInferredDimsError\<close>, whatever the input shape is; nothing is divided or
  multiplied before.
\<close>

theorem two_unknown_rejected:
  assumes "\<forall>j < length shape.
             (0 \<le>s shape ! j \<or> shape ! j = - 1) \<and> (shape ! j = 0 \<longrightarrow> j < length input_dim)"
    and "2 \<le> count_list shape (- 1)"
  shows "ValidateShape shape input_dim = Inl MultipleInferredDimsError"
proof -
  have ok: "\<forall>j < length shape. entry_ok (length input_dim) j (shape ! j)"
    using assms(1) by (auto simp: entry_ok_def)
  show ?thesis
    unfolding ValidateShape_def Let_def ValidateShape_loop_ok [OF ok]
    using assms(2) by (simp add: length_unknown_positions)
qed

theorem two_unknown_rejected_witness:
  "ValidateShape [- 1, - 1] [2, 3, 4] = Inl MultipleInferredDimsError"
proof -
  have h1: "\<forall>j < length [- 1, - 1 :: int32].
              (0 \<le>s [- 1, - 1 :: int32] ! j \<or> [- 1, - 1 :: int32] ! j = - 1) \<and>
              ([- 1, - 1 :: int32] ! j = 0 \<longrightarrow> j < length [2, 3, 4 :: int64])"
    by (simp add: nth_Cons')
  have h2: "2 \<le> count_list [- 1, - 1 :: int32] (- 1)" by simp
  show ?thesis using two_unknown_rejected [OF h1 h2] .
qed

text \<open>With a third entry \<open>-5\<close> the error is the one of the loop.\<close>

theorem two_unknown_counterexample:
  "ValidateShape [- 1, - 1, - 5] [2, 4, 6] = Inl InvalidDimensionError"
  by (simp add: ValidateShape_def product_def word_sle_eq)

section \<open>A dimension to copy beyond the rank of the input\<close>

text \<open>
  Claim C5 says that a \<open>0\<close> at a position \<open>i\<close> at or beyond the rank of the input always
  fails with \<open>IndexOutOfRangeError\<close>. An entry before it that is negative and not \<open>-1\<close>
  is met first by the loop and fails with \<open>InvalidDimensionError\<close>. What holds: with
  such a \<open>0\<close> the call always fails, with one of these two errors, and it fails with
  \<open>IndexOutOfRangeError\<close> if no entry before position \<open>i\<close> is a negative number other
  than \<open>-1\<close>. So a \<open>0\<close> is accepted only at a position below the rank.
\<close>

theorem zero_out_of_range:
  assumes "i < length shape" and "shape ! i = 0" and "length input_dim \<le> i"
  shows "(ValidateShape shape input_dim = Inl IndexOutOfRangeError \<or>
          ValidateShape shape input_dim = Inl InvalidDimensionError) \<and>
         ((\<forall>j < i. 0 \<le>s shape ! j \<or> shape ! j = - 1) \<longrightarrow>
          ValidateShape shape input_dim = Inl IndexOutOfRangeError)"
proof -
  let ?r = "length input_dim"
  let ?bad = "\<lambda>k. k < length shape \<and> \<not> entry_ok ?r k (shape ! k)"
  define k where "k = (LEAST k. ?bad k)"
  have bad_i: "?bad i" using assms by (simp add: entry_ok_def)
  then have bad_k: "?bad k" unfolding k_def by (rule LeastI)
  have k_le: "k \<le> i" unfolding k_def using bad_i by (rule Least_le)
  have before: "\<forall>j < k. entry_ok ?r j (shape ! j)"
  proof (intro allI impI)
    fix j assume "j < k"
    then have "\<not> ?bad j" unfolding k_def by (rule not_less_Least)
    moreover have "j < length shape" using \<open>j < k\<close> k_le assms(1) by simp
    ultimately show "entry_ok ?r j (shape ! j)" by simp
  qed
  have res: "ValidateShape shape input_dim =
      Inl (if 0 \<le>s shape ! k \<or> shape ! k = - 1 then IndexOutOfRangeError else InvalidDimensionError)"
    using bad_k before by (intro ValidateShape_first_bad) simp_all
  have "ValidateShape shape input_dim = Inl IndexOutOfRangeError"
    if valid: "\<forall>j < i. 0 \<le>s shape ! j \<or> shape ! j = - 1"
  proof -
    have "0 \<le>s shape ! k \<or> shape ! k = - 1"
    proof (cases "k = i")
      case True
      with assms(2) show ?thesis by simp
    next
      case False
      with k_le have "k < i" by simp
      with valid show ?thesis by simp
    qed
    with res show ?thesis by simp
  qed
  with res show ?thesis by auto
qed

theorem zero_out_of_range_witness:
  "ValidateShape [2, 3, 2, 0] [2, 3, 4] = Inl IndexOutOfRangeError"
proof -
  have h1: "3 < length [2, 3, 2, 0 :: int32]" by simp
  have h2: "[2, 3, 2, 0 :: int32] ! 3 = 0" by simp
  have h3: "length [2, 3, 4 :: int64] \<le> 3" by simp
  have h4: "\<forall>j < 3. 0 \<le>s [2, 3, 2, 0 :: int32] ! j \<or> [2, 3, 2, 0 :: int32] ! j = - 1"
    by (simp add: nth_Cons' word_sle_eq)
  show ?thesis using zero_out_of_range [OF h1 h2 h3] h4 by blast
qed

text \<open>A \<open>-5\<close> in front of the \<open>0\<close> is reported instead.\<close>

theorem zero_out_of_range_counterexample:
  "ValidateShape [- 5, 0] [4] = Inl InvalidDimensionError"
  by (simp add: ValidateShape_def product_def word_sle_eq)

section \<open>The order of the checks\<close>

text \<open>
  Claim C6 says that the check of the values runs over the whole target shape before
  the check of the positions of \<open>0\<close>, so that a target shape with both faults always
  fails with \<open>InvalidDimensionError\<close>. The loop makes both checks entry by entry. What
  holds: let \<open>k\<close> be the position of the first entry that is negative and not \<open>-1\<close>, and
  \<open>m\<close> the position of the first \<open>0\<close> at or beyond the rank of the input; the call fails
  with \<open>InvalidDimensionError\<close> if \<open>k < m\<close> and with \<open>IndexOutOfRangeError\<close> otherwise.
\<close>

theorem first_failing_entry_decides:
  assumes "k < length shape" and "\<not> (0 \<le>s shape ! k \<or> shape ! k = - 1)"
    and "\<forall>j < k. 0 \<le>s shape ! j \<or> shape ! j = - 1"
    and "m < length shape" and "shape ! m = 0" and "length input_dim \<le> m"
    and "\<forall>j < m. \<not> (shape ! j = 0 \<and> length input_dim \<le> j)"
  shows "ValidateShape shape input_dim =
         Inl (if k < m then InvalidDimensionError else IndexOutOfRangeError)"
proof -
  let ?r = "length input_dim"
  have neq: "k \<noteq> m" using assms(2,5) by auto
  show ?thesis
  proof (cases "k < m")
    case True
    have "\<forall>j < k. entry_ok ?r j (shape ! j)"
    proof (intro allI impI)
      fix j assume "j < k"
      with True have "j < m" by simp
      with assms(7) have "shape ! j = 0 \<longrightarrow> j < ?r" by auto
      with assms(3) \<open>j < k\<close> show "entry_ok ?r j (shape ! j)" by (simp add: entry_ok_def)
    qed
    moreover have "\<not> entry_ok ?r k (shape ! k)"
      using assms(2) by (simp add: entry_ok_def)
    ultimately show ?thesis
      using ValidateShape_first_bad [of k shape input_dim] assms(1,2) True by simp
  next
    case False
    with neq have mk: "m < k" by simp
    have "\<forall>j < m. entry_ok ?r j (shape ! j)"
    proof (intro allI impI)
      fix j assume "j < m"
      with mk have "j < k" by simp
      from assms(7) \<open>j < m\<close> have "shape ! j = 0 \<longrightarrow> j < ?r" by auto
      with assms(3) \<open>j < k\<close> show "entry_ok ?r j (shape ! j)" by (simp add: entry_ok_def)
    qed
    moreover have "\<not> entry_ok ?r m (shape ! m)"
      using assms(5,6) by (simp add: entry_ok_def)
    ultimately show ?thesis
      using ValidateShape_first_bad [of m shape input_dim] assms(4,5) False by simp
  qed
qed

theorem first_failing_entry_decides_witness:
  "ValidateShape [2, - 5, 0] [4] = Inl InvalidDimensionError"
proof -
  have h1: "1 < length [2, - 5, 0 :: int32]" by simp
  have h2: "\<not> (0 \<le>s [2, - 5, 0 :: int32] ! 1 \<or> [2, - 5, 0 :: int32] ! 1 = - 1)"
    by (simp add: word_sle_eq)
  have h3: "\<forall>j < 1. 0 \<le>s [2, - 5, 0 :: int32] ! j \<or> [2, - 5, 0 :: int32] ! j = - 1"
    by (simp add: word_sle_eq)
  have h4: "2 < length [2, - 5, 0 :: int32]" by simp
  have h5: "[2, - 5, 0 :: int32] ! 2 = 0" by simp
  have h6: "length [4 :: int64] \<le> 2" by simp
  have h7: "\<forall>j < 2. \<not> ([2, - 5, 0 :: int32] ! j = 0 \<and> length [4 :: int64] \<le> j)"
    by (simp add: nth_Cons')
  show ?thesis using first_failing_entry_decides [OF h1 h2 h3 h4 h5 h6 h7] by simp
qed

text \<open>The \<open>0\<close> at position 1 is met before the \<open>-5\<close> at position 2.\<close>

theorem rule_order_counterexample:
  "ValidateShape [2, 0, - 5] [4] = Inl IndexOutOfRangeError"
  by (simp add: ValidateShape_def product_def word_sle_eq)

section \<open>The contexts\<close>

lemma output_dims_SetOutputDim:
  "output_dims (SetOutputDim ctx name d) name = Some d"
  by (simp add: output_dims_def SetOutputDim_def split: option.splits)

lemma output_dims_ShareLoD:
  "outputs ctx out \<noteq> None \<Longrightarrow> output_dims (ShareLoD ctx i out) out = output_dims ctx out"
  by (auto simp: output_dims_def ShareLoD_def split: option.splits)

lemma outputs_SetOutputDim_present: "outputs (SetOutputDim ctx name d) name \<noteq> None"
  by (simp add: SetOutputDim_def)

lemma output_lod_ShareLoD:
  "output_lod (ShareLoD ctx i out) out = Some (GetInputLoD ctx i)"
  by (simp add: output_lod_def ShareLoD_def split: option.splits)

lemma GetInputLoD_SetOutputDim: "GetInputLoD (SetOutputDim ctx name d) i = GetInputLoD ctx i"
  by (simp add: GetInputLoD_def SetOutputDim_def)

lemma input_lod_present: "HasInput ctx i \<Longrightarrow> input_lod ctx i = Some (GetInputLoD ctx i)"
  by (auto simp: HasInput_def input_lod_def GetInputLoD_def)

lemma InferShape_Inr_cases:
  assumes "InferShape ctx = Inr ctx'"
  obtains d where "HasInput ctx ''X''" "HasOutput ctx ''Out''" "attr_shape ctx \<noteq> []"
    "ctx' = ShareLoD (SetOutputDim ctx ''Out'' d) ''X'' ''Out''"
  using assms by (auto simp: InferShape_def Let_def split: if_splits sum.splits)

lemmas run_simps = InferShape_def HasInput_def HasOutput_def GetInputDim_def
  ValidateShape_def product_def word_sle_eq SetOutputDim_def ShareLoD_def GetInputLoD_def
  divisor_def accumulate_def div_int64_def make_ddim_def Let_def

lemma InferShape_example_static:
  "InferShape example_static =
     Inr \<lparr>inputs = [''X'' \<mapsto> \<lparr>dims = [2, 4, 6], lod = [[0, 1, 2]]\<rparr>],
          outputs = [''Out'' \<mapsto> \<lparr>dims = [2, 3, 4, 2], lod = [[0, 1, 2]]\<rparr>],
          attr_shape = [2, 3, - 1, 2]\<rparr>"
  by (simp add: example_static_def run_simps)

lemma InferShape_example_deferred:
  "InferShape example_deferred =
     Inr \<lparr>inputs = [''X'' \<mapsto> \<lparr>dims = [2, 4, 6], lod = [[0, 1, 2]]\<rparr>],
          outputs = [''Out'' \<mapsto> \<lparr>dims = [2, 4, 6], lod = [[0, 1, 2]]\<rparr>],
          attr_shape = [- 1, 0, 3, 2]\<rparr>"
  by (simp add: example_deferred_def run_simps)

section \<open>The gradient operator\<close>

text \<open>
  Claim C7: the shape routine of the gradient operator sets the shape of \<^verbatim>\<open>X@GRAD\<close> to
  the shape of the input \<^verbatim>\<open>X\<close> and does nothing else; it fails if \<^verbatim>\<open>X\<close> is missing, and
  if \<^verbatim>\<open>Out@GRAD\<close> is missing. So whenever the forward routine succeeds on a context
  \<open>f\<close>, the gradient routine on a context \<open>g\<close> that was handed the same \<^verbatim>\<open>X\<close> and
  an \<^verbatim>\<open>Out@GRAD\<close> gives \<^verbatim>\<open>X@GRAD\<close> the shape of the original input.
\<close>

theorem grad_restores_input_shape:
  "(HasInput g ''X'' \<and> HasInput g (GradVarName ''Out'') \<longrightarrow>
      GradInferShape g = Inr (SetOutputDim g (GradVarName ''X'') (GetInputDim g ''X'')) \<and>
      output_dims (SetOutputDim g (GradVarName ''X'') (GetInputDim g ''X'')) (GradVarName ''X'')
        = Some (GetInputDim g ''X'')) \<and>
   (\<not> HasInput g ''X'' \<longrightarrow> GradInferShape g = Inl InputNullError) \<and>
   (HasInput g ''X'' \<and> \<not> HasInput g (GradVarName ''Out'') \<longrightarrow>
      GradInferShape g = Inl OutGradNullError) \<and>
   (InferShape f = Inr f' \<and> inputs g ''X'' = inputs f ''X'' \<and> HasInput g (GradVarName ''Out'') \<longrightarrow>
      (\<exists>g'. GradInferShape g = Inr g' \<and>
            output_dims g' (GradVarName ''X'') = Some (GetInputDim f ''X'')))"
proof -
  have round: "\<exists>g'. GradInferShape g = Inr g' \<and>
            output_dims g' (GradVarName ''X'') = Some (GetInputDim f ''X'')"
    if "InferShape f = Inr f'" "inputs g ''X'' = inputs f ''X''" "HasInput g (GradVarName ''Out'')"
  proof -
    from that(1) have "HasInput f ''X''" by (rule InferShape_Inr_cases)
    with that(2) have hx: "HasInput g ''X''" by (simp add: HasInput_def)
    from that(2) have "GetInputDim g ''X'' = GetInputDim f ''X''"
      by (simp add: GetInputDim_def)
    with hx that(3) show ?thesis
      by (simp add: GradInferShape_def output_dims_SetOutputDim)
  qed
  show ?thesis
    using round by (simp add: GradInferShape_def output_dims_SetOutputDim)
qed

theorem grad_restores_input_shape_witness:
  "output_dims (SetOutputDim example_grad ''X@GRAD'' [2, 4, 6]) ''X@GRAD'' = Some [2, 4, 6] \<and>
   GradInferShape example_grad = Inr (SetOutputDim example_grad ''X@GRAD'' [2, 4, 6]) \<and>
   GradInferShape example_grad_no_x = Inl InputNullError \<and>
   GradInferShape example_grad_no_out_grad = Inl OutGradNullError \<and>
   (\<exists>g'. GradInferShape example_grad = Inr g' \<and> output_dims g' ''X@GRAD'' = Some [2, 4, 6])"
proof -
  have x: "HasInput example_grad ''X''"
    and og: "HasInput example_grad (GradVarName ''Out'')"
    and d: "GetInputDim example_grad ''X'' = [2, 4, 6]"
    by (simp_all add: example_grad_def HasInput_def GradVarName_def GetInputDim_def)
  have nx: "\<not> HasInput example_grad_no_x ''X''"
    by (simp add: example_grad_no_x_def HasInput_def)
  have nog: "HasInput example_grad_no_out_grad ''X'' \<and>
             \<not> HasInput example_grad_no_out_grad (GradVarName ''Out'')"
    by (simp add: example_grad_no_out_grad_def HasInput_def GradVarName_def)
  have same: "inputs example_grad ''X'' = inputs example_static ''X''"
    by (simp add: example_grad_def example_static_def)
  have fd: "GetInputDim example_static ''X'' = [2, 4, 6]"
    by (simp add: example_static_def GetInputDim_def)
  note t = grad_restores_input_shape
  from t [of example_grad] x og d
  have a: "GradInferShape example_grad = Inr (SetOutputDim example_grad ''X@GRAD'' [2, 4, 6]) \<and>
      output_dims (SetOutputDim example_grad ''X@GRAD'' [2, 4, 6]) ''X@GRAD'' = Some [2, 4, 6]"
    by (simp add: GradVarName_def)
  from t [of example_grad_no_x] nx
  have b: "GradInferShape example_grad_no_x = Inl InputNullError" by blast
  from t [of example_grad_no_out_grad] nog
  have c: "GradInferShape example_grad_no_out_grad = Inl OutGradNullError" by blast
  from t [of example_grad example_static] InferShape_example_static same og fd
  have e: "\<exists>g'. GradInferShape example_grad = Inr g' \<and> output_dims g' ''X@GRAD'' = Some [2, 4, 6]"
    by (simp add: GradVarName_def)
  from a b c e show ?thesis by blast
qed

section \<open>The level-of-detail descriptor\<close>

text \<open>
  Claim C8: the forward routine succeeds whenever \<^verbatim>\<open>X\<close> and \<^verbatim>\<open>Out\<close> are there, the
  target shape is not empty and \<^verbatim>\<open>ValidateShape\<close> returns, be the output shape computed
  or deferred; its result is then the context with the shape of \<^verbatim>\<open>Out\<close> set and the
  descriptor of \<^verbatim>\<open>X\<close> shared, and the descriptor of the output \<^verbatim>\<open>Out\<close> is the
  descriptor of the input \<^verbatim>\<open>X\<close>, unchanged. The same holds of every result of the
  routine; the shape that was computed plays no role in it.
\<close>

theorem lod_shared:
  "(HasInput ctx ''X'' \<and> HasOutput ctx ''Out'' \<and> attr_shape ctx \<noteq> [] \<and>
    ValidateShape (attr_shape ctx) (GetInputDim ctx ''X'') = Inr (output_shape, deferred) \<longrightarrow>
      InferShape ctx =
        Inr (ShareLoD
               (SetOutputDim ctx ''Out''
                  (if deferred then GetInputDim ctx ''X'' else make_ddim output_shape))
               ''X'' ''Out'') \<and>
      output_lod
        (ShareLoD
           (SetOutputDim ctx ''Out''
              (if deferred then GetInputDim ctx ''X'' else make_ddim output_shape))
           ''X'' ''Out'') ''Out'' = input_lod ctx ''X'' \<and>
      input_lod ctx ''X'' \<noteq> None) \<and>
   (InferShape ctx = Inr ctx' \<longrightarrow>
      output_lod ctx' ''Out'' = input_lod ctx ''X'' \<and> input_lod ctx ''X'' \<noteq> None)"
proof (intro conjI impI)
  assume a: "HasInput ctx ''X'' \<and> HasOutput ctx ''Out'' \<and> attr_shape ctx \<noteq> [] \<and>
    ValidateShape (attr_shape ctx) (GetInputDim ctx ''X'') = Inr (output_shape, deferred)"
  let ?d = "if deferred then GetInputDim ctx ''X'' else make_ddim output_shape"
  from a show "InferShape ctx = Inr (ShareLoD (SetOutputDim ctx ''Out'' ?d) ''X'' ''Out'')"
    by (simp add: InferShape_def)
  from a have hx: "HasInput ctx ''X''" by simp
  have "output_lod (ShareLoD (SetOutputDim ctx ''Out'' ?d) ''X'' ''Out'') ''Out''
        = Some (GetInputLoD ctx ''X'')"
    by (simp only: output_lod_ShareLoD GetInputLoD_SetOutputDim)
  with input_lod_present [OF hx]
  show "output_lod (ShareLoD (SetOutputDim ctx ''Out'' ?d) ''X'' ''Out'') ''Out''
        = input_lod ctx ''X''" by simp
  from input_lod_present [OF hx] show "input_lod ctx ''X'' \<noteq> None" by simp
next
  assume s: "InferShape ctx = Inr ctx'"
  then obtain d where hx: "HasInput ctx ''X''"
    and c: "ctx' = ShareLoD (SetOutputDim ctx ''Out'' d) ''X'' ''Out''"
    by (rule InferShape_Inr_cases)
  from c have "output_lod ctx' ''Out'' = Some (GetInputLoD ctx ''X'')"
    by (simp add: output_lod_ShareLoD GetInputLoD_SetOutputDim)
  with input_lod_present [OF hx]
  show "output_lod ctx' ''Out'' = input_lod ctx ''X''" by simp
  from input_lod_present [OF hx] show "input_lod ctx ''X'' \<noteq> None" by simp
qed

theorem lod_shared_witness:
  "InferShape example_static =
     Inr \<lparr>inputs = [''X'' \<mapsto> \<lparr>dims = [2, 4, 6], lod = [[0, 1, 2]]\<rparr>],
          outputs = [''Out'' \<mapsto> \<lparr>dims = [2, 3, 4, 2], lod = [[0, 1, 2]]\<rparr>],
          attr_shape = [2, 3, - 1, 2]\<rparr> \<and>
   input_lod example_static ''X'' = Some [[0, 1, 2]] \<and>
   output_lod
     \<lparr>inputs = [''X'' \<mapsto> \<lparr>dims = [2, 4, 6], lod = [[0, 1, 2]]\<rparr>],
      outputs = [''Out'' \<mapsto> \<lparr>dims = [2, 3, 4, 2], lod = [[0, 1, 2]]\<rparr>],
      attr_shape = [2, 3, - 1, 2]\<rparr> ''Out'' = Some [[0, 1, 2]] \<and>
   InferShape example_deferred =
     Inr \<lparr>inputs = [''X'' \<mapsto> \<lparr>dims = [2, 4, 6], lod = [[0, 1, 2]]\<rparr>],
          outputs = [''Out'' \<mapsto> \<lparr>dims = [2, 4, 6], lod = [[0, 1, 2]]\<rparr>],
          attr_shape = [- 1, 0, 3, 2]\<rparr> \<and>
   input_lod example_deferred ''X'' = Some [[0, 1, 2]] \<and>
   output_lod
     \<lparr>inputs = [''X'' \<mapsto> \<lparr>dims = [2, 4, 6], lod = [[0, 1, 2]]\<rparr>],
      outputs = [''Out'' \<mapsto> \<lparr>dims = [2, 4, 6], lod = [[0, 1, 2]]\<rparr>],
      attr_shape = [- 1, 0, 3, 2]\<rparr> ''Out'' = Some [[0, 1, 2]]"
proof -
  have s: "HasInput example_static ''X'' \<and> HasOutput example_static ''Out'' \<and>
      attr_shape example_static \<noteq> [] \<and>
      ValidateShape (attr_shape example_static) (GetInputDim example_static ''X'')
        = Inr ([2, 3, 4, 2], False)"
    by (simp add: example_static_def HasInput_def HasOutput_def GetInputDim_def
        ValidateShape_def product_def word_sle_eq accumulate_def div_int64_def)
  have d: "HasInput example_deferred ''X'' \<and> HasOutput example_deferred ''Out'' \<and>
      attr_shape example_deferred \<noteq> [] \<and>
      ValidateShape (attr_shape example_deferred) (GetInputDim example_deferred ''X'')
        = Inr ([- 1, 0, 3, 2], True)"
    by (simp add: example_deferred_def HasInput_def HasOutput_def GetInputDim_def
        ValidateShape_def product_def word_sle_eq)
  have rs: "ShareLoD (SetOutputDim example_static ''Out'' (make_ddim [2, 3, 4, 2])) ''X'' ''Out''
      = \<lparr>inputs = [''X'' \<mapsto> \<lparr>dims = [2, 4, 6], lod = [[0, 1, 2]]\<rparr>],
          outputs = [''Out'' \<mapsto> \<lparr>dims = [2, 3, 4, 2], lod = [[0, 1, 2]]\<rparr>],
          attr_shape = [2, 3, - 1, 2]\<rparr>"
    by (simp add: example_static_def ShareLoD_def SetOutputDim_def make_ddim_def GetInputLoD_def)
  have rd: "ShareLoD (SetOutputDim example_deferred ''Out'' (GetInputDim example_deferred ''X''))
        ''X'' ''Out''
      = \<lparr>inputs = [''X'' \<mapsto> \<lparr>dims = [2, 4, 6], lod = [[0, 1, 2]]\<rparr>],
          outputs = [''Out'' \<mapsto> \<lparr>dims = [2, 4, 6], lod = [[0, 1, 2]]\<rparr>],
          attr_shape = [- 1, 0, 3, 2]\<rparr>"
    by (simp add: example_deferred_def ShareLoD_def SetOutputDim_def GetInputDim_def
        GetInputLoD_def)
  have ls: "input_lod example_static ''X'' = Some [[0, 1, 2]]"
    and ld: "input_lod example_deferred ''X'' = Some [[0, 1, 2]]"
    by (simp_all add: input_lod_def example_static_def example_deferred_def)
  from lod_shared [of example_static "[2, 3, 4, 2]" False] s
  have a: "InferShape example_static =
        Inr (ShareLoD (SetOutputDim example_static ''Out'' (make_ddim [2, 3, 4, 2])) ''X'' ''Out'') \<and>
      output_lod
        (ShareLoD (SetOutputDim example_static ''Out'' (make_ddim [2, 3, 4, 2])) ''X'' ''Out'')
        ''Out'' = input_lod example_static ''X''"
    by simp
  from lod_shared [of example_deferred "[- 1, 0, 3, 2]" True] d
  have b: "InferShape example_deferred =
        Inr (ShareLoD (SetOutputDim example_deferred ''Out'' (GetInputDim example_deferred ''X''))
               ''X'' ''Out'') \<and>
      output_lod
        (ShareLoD (SetOutputDim example_deferred ''Out'' (GetInputDim example_deferred ''X''))
           ''X'' ''Out'')
        ''Out'' = input_lod example_deferred ''X''"
    by simp
  from a b show ?thesis unfolding rs rd ls ld by simp
qed

section \<open>The output shape when a dimension is to be copied\<close>

text \<open>
  Claim C9: whenever \<^verbatim>\<open>ValidateShape\<close> reports that a dimension is to be copied, the
  forward routine sets the shape of \<^verbatim>\<open>Out\<close> to the shape of the input \<^verbatim>\<open>X\<close>; the shape
  that \<^verbatim>\<open>ValidateShape\<close> wrote, with its \<open>0\<close> and \<open>-1\<close> entries, is not used.
\<close>

theorem copy_dim_sets_input_shape:
  assumes "HasInput ctx ''X''" and "HasOutput ctx ''Out''" and "attr_shape ctx \<noteq> []"
    and "ValidateShape (attr_shape ctx) (GetInputDim ctx ''X'') = Inr (output_shape, True)"
  shows "InferShape ctx =
           Inr (ShareLoD (SetOutputDim ctx ''Out'' (GetInputDim ctx ''X'')) ''X'' ''Out'') \<and>
         output_dims
           (ShareLoD (SetOutputDim ctx ''Out'' (GetInputDim ctx ''X'')) ''X'' ''Out'') ''Out''
           = Some (GetInputDim ctx ''X'')"
proof -
  have "output_dims
           (ShareLoD (SetOutputDim ctx ''Out'' (GetInputDim ctx ''X'')) ''X'' ''Out'') ''Out''
           = Some (GetInputDim ctx ''X'')"
    by (simp add: output_dims_ShareLoD outputs_SetOutputDim_present output_dims_SetOutputDim)
  moreover have "InferShape ctx =
           Inr (ShareLoD (SetOutputDim ctx ''Out'' (GetInputDim ctx ''X'')) ''X'' ''Out'')"
    using assms by (simp add: InferShape_def)
  ultimately show ?thesis by simp
qed


theorem copy_dim_sets_input_shape_witness:
  "InferShape example_deferred =
     Inr (ShareLoD (SetOutputDim example_deferred ''Out'' [2, 4, 6]) ''X'' ''Out'') \<and>
   output_dims (ShareLoD (SetOutputDim example_deferred ''Out'' [2, 4, 6]) ''X'' ''Out'') ''Out''
     = Some [2, 4, 6]"
proof -
  have h1: "HasInput example_deferred ''X''"
    and h2: "HasOutput example_deferred ''Out''"
    and h3: "attr_shape example_deferred \<noteq> []"
    and d: "GetInputDim example_deferred ''X'' = [2, 4, 6]"
    by (simp_all add: example_deferred_def HasInput_def HasOutput_def GetInputDim_def)
  have h4: "ValidateShape (attr_shape example_deferred) (GetInputDim example_deferred ''X'')
            = Inr ([- 1, 0, 3, 2], True)"
    by (simp add: example_deferred_def GetInputDim_def ValidateShape_def product_def word_sle_eq)
  show ?thesis using copy_dim_sets_input_shape [OF h1 h2 h3 h4] d by simp
qed

section \<open>The arithmetic of the inferred dimension\<close>

text \<open>
  The 32-bit product agrees with the product of the entries as long as that fits; the
  64-bit division and multiplication are exact on the values that occur.
\<close>

lemma fold_mult_word:
  "fold (\<lambda>a acc. acc * a) xs (c :: 'a::len word) = c * word_of_int (prod_list (map sint xs))"
  by (induction xs arbitrary: c) (simp_all add: mult.assoc)

lemma accumulate_eq: "accumulate shape = word_of_int (prod_list (map sint shape))"
  by (simp add: accumulate_def fold_mult_word)

lemma capacity_spec_pos: "0 < capacity_spec shape"
  unfolding capacity_spec_def
  by (induction shape) (simp_all add: word_sless_alt)

lemma prod_sint_signs:
  "(\<forall>s \<in> set ss. s = - 1 \<or> 0 <s s) \<Longrightarrow>
   prod_list (map sint ss) = (- 1) ^ count_list ss (- 1) * capacity_spec ss"
  unfolding capacity_spec_def
  by (induction ss) (auto simp: word_sless_alt)

lemma sint_word_of_int_self:
  "- (2 ^ (LENGTH('a) - 1)) \<le> k \<Longrightarrow> k < 2 ^ (LENGTH('a::len) - 1) \<Longrightarrow>
   sint (word_of_int k :: 'a word) = k"
  by (simp only: sint_sbintrunc' signed_take_bit_int_eq_self)

lemma sint_divisor:
  assumes "\<forall>s \<in> set shape. s = - 1 \<or> 0 <s s" and "count_list shape (- 1) = 1"
    and "capacity_spec shape < 2 ^ 31"
  shows "sint (divisor shape) = capacity_spec shape"
proof -
  let ?P = "capacity_spec shape"
  have pos: "0 < ?P" by (rule capacity_spec_pos)
  have acc: "accumulate shape = word_of_int (- ?P)"
    using prod_sint_signs [OF assms(1)] assms(2) by (simp add: accumulate_eq)
  have "sint (word_of_int (- ?P) :: int32) = - ?P"
    using pos assms(3) by (intro sint_word_of_int_self) simp_all
  then have "sint (accumulate shape) = - ?P"
    by (simp only: acc)
  then have "(scast (accumulate shape) :: int64) = word_of_int (- ?P)"
    by (simp only: scast_eq)
  then have "divisor shape = word_of_int ?P"
    by (simp add: divisor_def)
  moreover have "sint (word_of_int ?P :: int64) = ?P"
    using pos assms(3) by (intro sint_word_of_int_self) simp_all
  ultimately show ?thesis by simp
qed

lemma smod_zero_iff_dvd: "(t :: int) smod p = 0 \<longleftrightarrow> p dvd t"
  by (auto simp: signed_modulo_int_def mod_eq_0_iff_dvd sgn_0_0)

lemma word_of_int_sint_self: "word_of_int (sint w) = (w :: 'a::len word)"
proof -
  have "(scast w :: 'a word) = word_of_int (sint w)" by (rule scast_eq)
  then show ?thesis by (simp only: scast_id)
qed

lemma exact_division_word:
  fixes a d :: int64
  assumes "0 < sint d"
  shows "(word_of_int (sint a sdiv sint d) * d = a) \<longleftrightarrow> sint d dvd sint a"
proof -
  let ?T = "sint a" and ?P = "sint d"
  have eq: "?T - ?T sdiv ?P * ?P = ?T smod ?P" by (rule minus_sdiv_mult_eq_smod)
  have rng: "\<bar>?T smod ?P\<bar> < ?P"
    using smod_int_range [of ?P ?T] assms by auto
  have Pb: "?P < 2 ^ 64" using sint_lt [of d] by simp
  have "word_of_int (?T sdiv ?P) * d = a \<longleftrightarrow>
        word_of_int (?T sdiv ?P) * (word_of_int ?P :: int64) = word_of_int ?T"
    by (simp only: word_of_int_sint_self)
  also have "\<dots> \<longleftrightarrow> (word_of_int (?T sdiv ?P * ?P) :: int64) = word_of_int ?T"
    by (simp only: of_int_mult)
  also have "\<dots> \<longleftrightarrow> (?T sdiv ?P * ?P) mod 2 ^ LENGTH(64) = ?T mod 2 ^ LENGTH(64)"
    by (simp only: word_of_int_eq_iff take_bit_eq_mod)
  also have "\<dots> \<longleftrightarrow> (?T sdiv ?P * ?P) mod 2 ^ 64 = ?T mod 2 ^ 64"
    by simp
  also have "\<dots> \<longleftrightarrow> (2 ^ 64 :: int) dvd ?T smod ?P"
    unfolding eq [symmetric] by (metis mod_eq_dvd_iff)
  also have "\<dots> \<longleftrightarrow> ?T smod ?P = 0"
  proof
    assume dv: "(2 ^ 64 :: int) dvd ?T smod ?P"
    show "?T smod ?P = 0"
    proof (rule ccontr)
      assume "?T smod ?P \<noteq> 0"
      with dv have "(2 ^ 64 :: int) \<le> \<bar>?T smod ?P\<bar>"
        using dvd_imp_le_int [of "?T smod ?P" "2 ^ 64"] by simp
      with rng Pb show False by linarith
    qed
  qed simp
  also have "\<dots> \<longleftrightarrow> ?P dvd ?T"
    by (rule smod_zero_iff_dvd)
  finally show ?thesis .
qed

lemma sdiv_exact: "(p :: int) dvd t \<Longrightarrow> t sdiv p = t div p"
  by (simp add: signed_divide_int_eq_divide_int)

lemma div_int64_pos:
  assumes "0 < sint d"
  shows "div_int64 a d = Inr (word_of_int (sint a sdiv sint d))"
proof -
  from assms have "d \<noteq> 0" by auto
  moreover from assms have "d \<noteq> - 1" by auto
  ultimately show ?thesis by (simp add: div_int64_def)
qed

lemma sint_product:
  assumes "\<forall>d \<in> set input_dim. 0 \<le>s d" and "prod_list (map sint input_dim) < 2 ^ 63"
  shows "sint (product input_dim) = prod_list (map sint input_dim)"
proof -
  have "0 \<le> prod_list (map sint input_dim)"
    using assms(1) by (induction input_dim) (simp_all add: word_sle_eq)
  then have "sint (word_of_int (prod_list (map sint input_dim)) :: int64)
             = prod_list (map sint input_dim)"
    using assms(2) by (intro sint_word_of_int_self) simp_all
  then show ?thesis by (simp add: product_def fold_mult_word)
qed

lemma positive_or_unknown:
  assumes "p < length shape" "shape ! p = - 1" "\<forall>j < length shape. j \<noteq> p \<longrightarrow> 0 <s shape ! j"
  shows "\<forall>s \<in> set shape. s = - 1 \<or> 0 <s s"
  using assms by (metis in_set_conv_nth)

section \<open>A target shape with a dimension to infer\<close>

text \<open>
  As long as the product of the positive entries is below \<open>2 ^ 31\<close>, the 32-bit
  accumulation is exact: if the entry at position \<open>p\<close> is \<open>-1\<close> and every other entry is
  positive, the divisor is that product, and the call returns the target shape with the
  quotient at position \<open>p\<close>, not deferred, if the product divides the element count of
  the input, and fails with \<open>ShapeMismatchError\<close> if it does not.
\<close>

lemma inferred_dimension:
  assumes "p < length shape" and "shape ! p = - 1"
    and "\<forall>j < length shape. j \<noteq> p \<longrightarrow> 0 <s shape ! j"
    and "capacity_spec shape < 2 ^ 31"
  shows "sint (divisor shape) = capacity_spec shape \<and>
         ValidateShape shape input_dim =
           (if capacity_spec shape dvd sint (product input_dim)
            then Inr ((map scast shape)
                        [p := word_of_int (sint (product input_dim) div capacity_spec shape)],
                      False)
            else Inl ShapeMismatchError)"
proof -
  let ?P = "capacity_spec shape" and ?T = "sint (product input_dim)"
  have pu: "\<forall>s \<in> set shape. s = - 1 \<or> 0 <s s"
    using assms(1-3) by (rule positive_or_unknown)
  then have nz: "0 \<notin> set shape" by auto
  have ok: "\<forall>j < length shape. entry_ok (length input_dim) j (shape ! j)"
    using pu nz by (auto simp: entry_ok_def word_sle_eq word_sless_alt dest!: nth_mem)
  have "\<forall>j < length shape. j \<noteq> p \<longrightarrow> shape ! j \<noteq> - 1"
    using assms(3) by (auto simp: word_sless_alt)
  with assms(1,2) have up: "unknown_positions 0 shape = [p]"
    by (intro unknown_positions_single) simp_all
  then have cnt: "count_list shape (- 1) = 1"
    using length_unknown_positions [of 0 shape] by simp
  have sd: "sint (divisor shape) = ?P"
    using pu cnt assms(4) by (rule sint_divisor)
  have pos: "0 < sint (divisor shape)"
    using sd capacity_spec_pos [of shape] by simp
  have dv: "div_int64 (product input_dim) (divisor shape) = Inr (word_of_int (?T sdiv ?P))"
    using div_int64_pos [OF pos, of "product input_dim"] sd by simp
  have ex: "(word_of_int (?T sdiv ?P) * divisor shape = product input_dim) \<longleftrightarrow> ?P dvd ?T"
    using exact_division_word [OF pos, of "product input_dim"] sd by simp
  have "ValidateShape shape input_dim =
           (if ?P dvd ?T
            then Inr ((map scast shape)[p := word_of_int (?T div ?P)], False)
            else Inl ShapeMismatchError)"
    unfolding ValidateShape_def Let_def divisor_def [symmetric]
      ValidateShape_loop_ok [OF ok] up
    using nz by (simp add: dv ex sdiv_exact)
  with sd show ?thesis by simp
qed

lemma inferred_dimension_documented:
  "sint (divisor [2, 3, - 1, 2]) = 12 \<and>
   ValidateShape [2, 3, - 1, 2] [2, 4, 6] = Inr ([2, 3, 4, 2], False) \<and>
   ValidateShape [7, - 1] [2, 4, 6] = Inl ShapeMismatchError"
proof -
  have c: "capacity_spec [2, 3, - 1, 2] = 12" "capacity_spec [7, - 1] = 7"
    by (simp_all add: capacity_spec_def word_sless_alt)
  have t: "sint (product [2, 4, 6]) = 48" by (simp add: product_def)
  have a1: "2 < length [2, 3, - 1, 2 :: int32]" and a2: "[2, 3, - 1, 2 :: int32] ! 2 = - 1"
    and a3: "\<forall>j < length [2, 3, - 1, 2 :: int32]. j \<noteq> 2 \<longrightarrow> 0 <s [2, 3, - 1, 2 :: int32] ! j"
    and a4: "capacity_spec [2, 3, - 1, 2] < 2 ^ 31"
    by (simp_all add: c nth_Cons' word_sless_alt)
  have b1: "1 < length [7, - 1 :: int32]" and b2: "[7, - 1 :: int32] ! 1 = - 1"
    and b3: "\<forall>j < length [7, - 1 :: int32]. j \<noteq> 1 \<longrightarrow> 0 <s [7, - 1 :: int32] ! j"
    and b4: "capacity_spec [7, - 1] < 2 ^ 31"
    by (simp_all add: c nth_Cons' word_sless_alt)
  from inferred_dimension [OF a1 a2 a3 a4, of "[2, 4, 6]"]
       inferred_dimension [OF b1 b2 b3 b4, of "[2, 4, 6]"]
  show ?thesis by (simp add: c t)
qed

text \<open>
  Claim C2 says that for every target shape with exactly one \<open>-1\<close> and no \<open>0\<close> the
  capacity is the product of the positive entries, the call fails with
  \<open>ShapeMismatchError\<close> unless the capacity divides the element count of the input, and
  otherwise returns the target shape with the quotient at the place of the \<open>-1\<close>. The
  capacity is declared \<^verbatim>\<open>int64_t\<close>, but it is accumulated from the \<^verbatim>\<open>int\<close> literal \<open>1\<close>
  with \<^verbatim>\<open>std::multiplies<int>\<close>, in 32 bits. The positive entries of
  \<open>[65536, 65537, -1]\<close> have the product \<open>4295032832\<close>; for the input shape
  \<open>[65536, 65537, 3]\<close> of \<open>12885098496\<close> elements the inferred dimension is 3, and the
  call returns \<open>196611\<close>, since the accumulated product has wrapped around to \<open>65536\<close>.
\<close>

theorem inferred_dimension_overflow:
  "ValidateShape [65536, 65537, - 1] [65536, 65537, 3] = Inr ([65536, 65537, 196611], False) \<and>
   capacity_spec [65536, 65537, - 1] = 4295032832 \<and>
   sint (product [65536, 65537, 3]) = 12885098496 \<and>
   sint (product [65536, 65537, 3]) div capacity_spec [65536, 65537, - 1] = 3"
  by (simp add: ValidateShape_def product_def word_sle_eq accumulate_def
      div_int64_def capacity_spec_def word_sless_alt)

section \<open>The divisor\<close>

text \<open>
  Whenever the division is reached, the target shape has no \<open>0\<close>, exactly one \<open>-1\<close>, and
  every other entry is positive. If moreover the product of the positive entries is
  below \<open>2 ^ 31\<close>, the divisor is that product, it is positive, and the division does not
  trap; so a call with such a target shape never ends in a trap.
\<close>

lemma division_reached:
  assumes "reaches_division shape input_dim"
  shows "0 \<notin> set shape \<and> count_list shape (- 1) = 1 \<and>
         (\<forall>s \<in> set shape. s = - 1 \<or> 0 <s s) \<and>
         (capacity_spec shape < 2 ^ 31 \<longrightarrow>
            0 <s divisor shape \<and> sint (divisor shape) = capacity_spec shape \<and>
            div_int64 (product input_dim) (divisor shape) \<noteq> Inl ArithmeticFault)"
proof -
  from assms obtain neg need where
    loop: "validate_loop (length input_dim) 0 shape [] False = Inr (neg, need)"
    and le: "length neg \<le> 1" and nn: "\<not> need" and ne: "neg \<noteq> []"
    by (auto simp: reaches_division_def split: sum.splits)
  have ok: "\<forall>j < length shape. entry_ok (length input_dim) j (shape ! j)"
    using validate_loop_Inr_ok [OF loop] by simp
  from ValidateShape_loop_ok [OF ok] loop
  have neg: "neg = unknown_positions 0 shape" and need: "need = (0 \<in> set shape)"
    by simp_all
  from need nn have nz: "0 \<notin> set shape" by simp
  from le ne have "length neg = 1" by (cases neg) auto
  with neg have cnt: "count_list shape (- 1) = 1"
    by (simp add: length_unknown_positions)
  have pu: "\<forall>s \<in> set shape. s = - 1 \<or> 0 <s s"
  proof
    fix s assume s: "s \<in> set shape"
    then obtain j where "j < length shape" "shape ! j = s" by (auto simp: in_set_conv_nth)
    with ok have "0 \<le>s s \<or> s = - 1" by (auto simp: entry_ok_def)
    moreover from s nz have "s \<noteq> 0" by auto
    ultimately show "s = - 1 \<or> 0 <s s" by (auto simp: signed.order.strict_iff_order)
  qed
  have "0 <s divisor shape \<and> sint (divisor shape) = capacity_spec shape \<and>
        div_int64 (product input_dim) (divisor shape) \<noteq> Inl ArithmeticFault"
    if small: "capacity_spec shape < 2 ^ 31"
  proof -
    have sd: "sint (divisor shape) = capacity_spec shape"
      using pu cnt small by (rule sint_divisor)
    then have pos: "0 < sint (divisor shape)"
      using capacity_spec_pos [of shape] by simp
    then have "0 <s divisor shape" by (simp add: word_sless_alt)
    with sd div_int64_pos [OF pos, of "product input_dim"] show ?thesis by simp
  qed
  with nz cnt pu show ?thesis by blast
qed

lemma division_reached_documented:
  "count_list [2, 3, - 1, 2] (- 1 :: int32) = 1 \<and> 0 <s divisor [2, 3, - 1, 2] \<and>
   sint (divisor [2, 3, - 1, 2]) = 12"
proof -
  have r: "reaches_division [2, 3, - 1, 2] [2, 4, 6]"
    by (simp add: reaches_division_def word_sle_eq)
  have c: "capacity_spec [2, 3, - 1, 2] = 12"
    by (simp add: capacity_spec_def word_sless_alt)
  from division_reached [OF r] show ?thesis by (simp add: c)
qed

lemma validate_loop_errors:
  "validate_loop r i ss neg need = Inl e \<Longrightarrow>
   e = InvalidDimensionError \<or> e = IndexOutOfRangeError"
  by (induction ss arbitrary: i neg need) (auto split: if_splits)

lemma ValidateShape_no_fault:
  assumes "capacity_spec shape < 2 ^ 31"
  shows "ValidateShape shape input_dim \<noteq> Inl ArithmeticFault"
proof (cases "reaches_division shape input_dim")
  case True
  from division_reached [OF True] assms
  have pos: "0 <s divisor shape" by simp
  then have "0 < sint (divisor shape)" by (simp add: word_sless_alt)
  from div_int64_pos [OF this, of "product input_dim"] True
  show ?thesis
    by (auto simp: ValidateShape_def reaches_division_def Let_def divisor_def [symmetric]
        split: sum.splits prod.splits)
next
  case False
  then show ?thesis
    by (auto simp: ValidateShape_def reaches_division_def Let_def
        split: sum.splits prod.splits dest: validate_loop_errors)
qed

text \<open>
  Claim C10 says that the division never divides by zero, since on every path to it the
  target shape has no \<open>0\<close>, exactly one \<open>-1\<close> and positive entries otherwise, which makes
  the divisor positive. The divisor is the negated product accumulated in 32 bits, and
  that product wraps around: for the target shape \<open>[65536, 65536, -1]\<close> it is zero. With
  the input shape \<open>[65536, 65536, 2]\<close>, whose inferred dimension is 2, the call divides
  by zero.
\<close>

theorem division_by_zero_trap:
  "ValidateShape [65536, 65536, - 1] [65536, 65536, 2] = Inl ArithmeticFault \<and>
   divisor [65536, 65536, - 1] = 0 \<and>
   capacity_spec [65536, 65536, - 1] = 4294967296 \<and>
   sint (product [65536, 65536, 2]) = 8589934592"
  by (simp add: ValidateShape_def product_def word_sle_eq divisor_def accumulate_def
      div_int64_def capacity_spec_def word_sless_alt)

end
